theory Spec2Isabelle
  imports Complex_Main "HOL-Library.Signed_Division"
begin

section \<open>The Tatum MCP server: \<^verbatim>\<open>tatum-mcp-server/src/mcp.ts\<close>\<close>

text \<open>
  The development embeds the retrying JSON-RPC client \<^verbatim>\<open>tatumRpc\<close>, the hexadecimal
  parser \<^verbatim>\<open>hexToBigInt\<close>, the fixed-point formatter \<^verbatim>\<open>weiToEtherString\<close>, the inline
  formatter of the \<^verbatim>\<open>get_token_balance\<close> tool and the allow-list gate of the
  \<^verbatim>\<open>rpc_call\<close> tool.

  JavaScript strings are modelled as \<open>string\<close>; a \<open>char\<close> stands for one code unit below
  256. A \<^verbatim>\<open>bigint\<close> is an \<open>int\<close>. A thrown exception is the \<open>Inl\<close> branch of a sum.
\<close>

subsection \<open>Errors\<close>

datatype js_error =
    SyntaxError
  | RangeError
  | Error string

subsection \<open>Built-ins of the language used by the formatter\<close>

text \<open>
  \<^verbatim>\<open>BigInt(string)\<close> follows the StringToBigInt grammar of the language: white space is
  trimmed on both sides; the empty string is \<open>0\<close>; a literal is either an optionally
  signed run of decimal digits, or an unsigned run of digits after one of the prefixes
  \<^verbatim>\<open>0x 0X 0o 0O 0b 0B\<close>. Anything else throws a \<^verbatim>\<open>SyntaxError\<close>.
\<close>

definition isStrWhiteSpaceChar :: "char \<Rightarrow> bool" where
  "isStrWhiteSpaceChar c = (of_char c \<in> {9, 10, 11, 12, 13, 32, 160 :: nat})"

definition trimString :: "string \<Rightarrow> string" where
  "trimString s = rev (dropWhile isStrWhiteSpaceChar (rev (dropWhile isStrWhiteSpaceChar s)))"

definition digitValue :: "char \<Rightarrow> nat option" where
  "digitValue c =
     (let n = (of_char c :: nat) in
      if 48 \<le> n \<and> n \<le> 57 then Some (n - 48)
      else if 97 \<le> n \<and> n \<le> 102 then Some (n - 87)
      else if 65 \<le> n \<and> n \<le> 70 then Some (n - 55)
      else None)"

definition digitStep :: "nat \<Rightarrow> nat option \<Rightarrow> char \<Rightarrow> nat option" where
  "digitStep radix acc c =
     (case acc of
        None \<Rightarrow> None
      | Some a \<Rightarrow>
          (case digitValue c of
             None \<Rightarrow> None
           | Some d \<Rightarrow> if d < radix then Some (radix * a + d) else None))"

definition digitsValue :: "nat \<Rightarrow> string \<Rightarrow> nat option" where
  "digitsValue radix ds = (if ds = [] then None else foldl (digitStep radix) (Some 0) ds)"

definition StringToBigInt :: "string \<Rightarrow> int option" where
  "StringToBigInt str =
     (let t = trimString str in
      if t = [] then Some 0
      else if take 2 t = ''0x'' \<or> take 2 t = ''0X'' then map_option int (digitsValue 16 (drop 2 t))
      else if take 2 t = ''0o'' \<or> take 2 t = ''0O'' then map_option int (digitsValue 8 (drop 2 t))
      else if take 2 t = ''0b'' \<or> take 2 t = ''0B'' then map_option int (digitsValue 2 (drop 2 t))
      else if take 1 t = ''+'' then map_option int (digitsValue 10 (drop 1 t))
      else if take 1 t = ''-'' then map_option (\<lambda>n. - int n) (digitsValue 10 (drop 1 t))
      else map_option int (digitsValue 10 t))"

definition BigInt :: "string \<Rightarrow> js_error + int" where
  "BigInt str = (case StringToBigInt str of None \<Rightarrow> Inl SyntaxError | Some n \<Rightarrow> Inr n)"

text \<open>\<^verbatim>\<open>bigint.toString()\<close>: decimal digits, most significant first, \<^verbatim>\<open>-\<close> before a negative.\<close>

definition digitChar :: "nat \<Rightarrow> char" where
  "digitChar d = ''0123456789'' ! d"

fun natToString :: "nat \<Rightarrow> string" where
  "natToString n = (if n < 10 then [digitChar n] else natToString (n div 10) @ [digitChar (n mod 10)])"

declare natToString.simps [simp del]

definition toString :: "int \<Rightarrow> string" where
  "toString i = (if i < 0 then CHR ''-'' # natToString (nat (- i)) else natToString (nat i))"

text \<open>
  \<^verbatim>\<open>s.padStart(targetLength, fillString)\<close>: nothing is added when the string is long
  enough or the filler is empty; otherwise the filler is repeated and cut to the missing
  length.
\<close>

definition padStart :: "nat \<Rightarrow> string \<Rightarrow> string \<Rightarrow> string" where
  "padStart targetLength fillString s =
     (if targetLength \<le> length s \<or> fillString = [] then s
      else take (targetLength - length s)
             (concat (replicate (targetLength - length s) fillString)) @ s)"

text \<open>\<^verbatim>\<open>s.replace(/0+$/, '')\<close> removes the run of \<^verbatim>\<open>0\<close> that ends the string, if any.\<close>

definition replaceTrailingZeros :: "string \<Rightarrow> string" where
  "replaceTrailingZeros s = rev (dropWhile (\<lambda>c. c = CHR ''0'') (rev s))"

text \<open>\<^verbatim>\<open>a || b\<close> on strings: the empty string is falsy.\<close>

definition orElse :: "string \<Rightarrow> string \<Rightarrow> string" where
  "orElse a b = (if a = [] then b else a)"

subsection \<open>\<^verbatim>\<open>hexToBigInt\<close> and \<^verbatim>\<open>weiToEtherString\<close>\<close>

definition hexToBigInt :: "string \<Rightarrow> js_error + int" where
  "hexToBigInt hex = BigInt hex"

text \<open>
  The division and the remainder of \<^verbatim>\<open>bigint\<close> truncate towards zero (\<open>sdiv\<close>,
  \<open>smod\<close>).
\<close>

definition weiToEtherString :: "string \<Rightarrow> js_error + string" where
  "weiToEtherString weiHex =
     (case hexToBigInt weiHex of
        Inl e \<Rightarrow> Inl e
      | Inr wei \<Rightarrow>
          (let base = (10::int) ^ 18;
               whole = wei sdiv base;
               frac = wei smod base;
               fracStr = orElse (replaceTrailingZeros (padStart 18 ''0'' (toString frac))) ''0''
           in Inr (toString whole @ (if fracStr = ''0'' then '''' else ''.'' @ fracStr))))"

subsection \<open>The inline formatter of \<^verbatim>\<open>get_token_balance\<close>\<close>

text \<open>
  Lines 112 to 117 of the handler, as a function of the balance \<^verbatim>\<open>hexBal\<close> and of
  \<^verbatim>\<open>decimals\<close>, an integer-valued number. \<^verbatim>\<open>10n ** BigInt(decimals)\<close> throws a
  \<^verbatim>\<open>RangeError\<close> on a negative exponent.
\<close>

definition tokenBalanceFormatted :: "string \<Rightarrow> int \<Rightarrow> js_error + string" where
  "tokenBalanceFormatted hexBal decimals =
     (case hexToBigInt hexBal of
        Inl e \<Rightarrow> Inl e
      | Inr raw \<Rightarrow>
          if decimals < 0 then Inl RangeError
          else
            (let base = (10::int) ^ nat decimals;
                 whole = raw sdiv base;
                 frac = raw smod base;
                 fracStr = orElse (replaceTrailingZeros
                             (padStart (nat decimals) ''0'' (toString frac))) ''0'';
                 formatted = toString whole @ (if fracStr = ''0'' then '''' else ''.'' @ fracStr)
             in Inr formatted))"

subsection \<open>Reading a formatted amount back\<close>

text \<open>
  The output of the formatter is read back as a fixed-point number: the whole part is what stands
  before the first \<^verbatim>\<open>.\<close>, the fractional part what stands after it; the fractional
  digits are scaled to \<open>d\<close> digits by appending zeros.
\<close>

definition wholePart :: "string \<Rightarrow> string" where
  "wholePart s = takeWhile (\<lambda>c. c \<noteq> CHR ''.'') s"

definition fractionalPart :: "string \<Rightarrow> string option" where
  "fractionalPart s = (case dropWhile (\<lambda>c. c \<noteq> CHR ''.'') s of [] \<Rightarrow> None | _ # fs \<Rightarrow> Some fs)"

definition scaledValue :: "nat \<Rightarrow> string \<Rightarrow> nat option" where
  "scaledValue d s =
     (case digitsValue 10 (wholePart s) of
        None \<Rightarrow> None
      | Some w \<Rightarrow>
          (case fractionalPart s of
             None \<Rightarrow> Some (w * 10 ^ d)
           | Some fs \<Rightarrow>
               if d < length fs then None
               else (case digitsValue 10 (fs @ replicate (d - length fs) CHR ''0'') of
                       None \<Rightarrow> None
                     | Some f \<Rightarrow> Some (w * 10 ^ d + f))))"

definition trimmedFraction :: "string \<Rightarrow> bool" where
  "trimmedFraction s = (case fractionalPart s of None \<Rightarrow> True | Some fs \<Rightarrow> fs \<noteq> [] \<and> last fs \<noteq> CHR ''0'')"

text \<open>
  The expression shared by \<^verbatim>\<open>weiToEtherString\<close> and the inline formatter, named for the
  proofs; the two source functions are connected to it by \<open>weiToEtherString_render\<close> and
  \<open>tokenBalanceFormatted_render\<close>.
\<close>

definition renderFixed :: "nat \<Rightarrow> int \<Rightarrow> string" where
  "renderFixed d v =
     (let fracStr = orElse (replaceTrailingZeros (padStart d ''0'' (toString (v smod 10 ^ d)))) ''0''
      in toString (v sdiv 10 ^ d) @ (if fracStr = ''0'' then '''' else ''.'' @ fracStr))"

subsection \<open>Hexadecimal strings\<close>

text \<open>
  A run of hexadecimal digits, a run of decimal digits, and the strings the description of
  the formatter calls valid: a \<^verbatim>\<open>0x\<close>-prefixed or bare hexadecimal string.
\<close>

definition isHexDigits :: "string \<Rightarrow> bool" where
  "isHexDigits ds = (ds \<noteq> [] \<and> list_all (\<lambda>c. digitValue c \<noteq> None) ds)"


definition validHexadecimal :: "string \<Rightarrow> bool" where
  "validHexadecimal s = (isHexDigits s \<or> (take 2 s = ''0x'' \<and> isHexDigits (drop 2 s)))"

section \<open>The retrying JSON-RPC client\<close>

subsection \<open>Configuration, requests and responses\<close>

text \<open>
  \<^verbatim>\<open>interface Cfg\<close> and the constant \<^verbatim>\<open>RETRY\<close> of \<^verbatim>\<open>mcp.ts\<close>. Delays are in
  milliseconds.
\<close>

record Cfg =
  tatumApiKey :: string
  chain :: string

record retry_options =
  factor :: nat
  minTimeout :: nat
  maxTimeout :: nat
  randomize :: bool

definition RETRY :: retry_options where
  "RETRY = \<lparr>factor = 2, minTimeout = 500, maxTimeout = 8000, randomize = True\<rparr>"

text \<open>
  The request \<^verbatim>\<open>fetch\<close> sends: the URL, the HTTP method, the two headers and the JSON
  body \<^verbatim>\<open>{jsonrpc, id, method, params}\<close>. The type \<open>'p\<close> is the type of the parameter
  list (\<^verbatim>\<open>any[]\<close> in the source).
\<close>

record 'p rpc_body =
  jsonrpc :: string
  req_id :: nat
  req_method :: string
  req_params :: 'p

record 'p http_request =
  url :: string
  http_method :: string
  headers :: "(string \<times> string) list"
  body :: "'p rpc_body"

text \<open>
  What the transport answers. A response has a status and a body; the body either does not
  parse as JSON or is a JSON object with an \<^verbatim>\<open>error\<close> field (\<open>None\<close> when absent or falsy)
  and a \<^verbatim>\<open>result\<close> field of type \<open>'r\<close>. \<^verbatim>\<open>fetch\<close> can also reject, with a network
  error.
\<close>

record rpc_error =
  message :: "string option"

record 'r rpc_data =
  error :: "rpc_error option"
  result :: 'r

datatype 'r response_body = InvalidJson | Json "'r rpc_data"

datatype 'r fetch_result = FetchError string | Response nat "'r response_body"

subsection \<open>The world: requests sent and delays slept\<close>

text \<open>
  The effects of a call are recorded in a state: the list of the requests sent so far and
  the list of the delays slept between attempts. The transport is a function from the
  number of requests already sent to the answer to the next one; \<open>idle\<close> is the state
  before any request.
\<close>

record 'p world =
  sent :: "'p http_request list"
  slept :: "nat list"

definition idle :: "'p world" where
  "idle = \<lparr>sent = [], slept = []\<rparr>"

definition fetch ::
  "(nat \<Rightarrow> 'r fetch_result) \<Rightarrow> 'p http_request \<Rightarrow> 'p world \<Rightarrow> 'r fetch_result \<times> 'p world" where
  "fetch transport request w = (transport (length (sent w)), w\<lparr>sent := sent w @ [request]\<rparr>)"

subsection \<open>One attempt: the function passed to \<^verbatim>\<open>pRetry\<close>\<close>

text \<open>
  Lines 22 to 28 of \<^verbatim>\<open>tatumRpc\<close>, on the answer of \<^verbatim>\<open>fetch\<close>: the three rate and service
  statuses, any other status that is not \<^verbatim>\<open>ok\<close> (200 to 299), a body that does not
  parse, a body with a truthy \<^verbatim>\<open>error\<close>, and the result. Every failure is a thrown
  \<^verbatim>\<open>Error\<close>.
\<close>

definition handleResponse :: "string \<Rightarrow> 'r fetch_result \<Rightarrow> js_error + 'r" where
  "handleResponse method res =
     (case res of
        FetchError msg \<Rightarrow> Inl (Error msg)
      | Response status b \<Rightarrow>
          if status = 429 \<or> status = 403 \<or> status = 503
          then Inl (Error (''Rate/Service error '' @ natToString status))
          else if \<not> (200 \<le> status \<and> status \<le> 299)
          then Inl (Error (''RPC '' @ method @ '' failed '' @ natToString status))
          else
            (case b of
               InvalidJson \<Rightarrow> Inl SyntaxError
             | Json data \<Rightarrow>
                 (case error data of
                    Some e \<Rightarrow>
                      Inl (Error (case message e of
                                    None \<Rightarrow> ''RPC error''
                                  | Some m \<Rightarrow> orElse m ''RPC error''))
                  | None \<Rightarrow> Inr (result data))))"

definition rpcAttempt ::
  "(nat \<Rightarrow> 'r fetch_result) \<Rightarrow> 'p http_request \<Rightarrow> string \<Rightarrow> 'p world \<Rightarrow> (js_error + 'r) \<times> 'p world" where
  "rpcAttempt transport request method w =
     (case fetch transport request w of (res, w') \<Rightarrow> (handleResponse method res, w'))"

subsection \<open>\<^verbatim>\<open>pRetry\<close>\<close>

text \<open>
  Modelled from the spec: \<^verbatim>\<open>pRetry\<close> is imported from the package \<^verbatim>\<open>p-retry\<close>, whose code
  is not among the sources. The description of the client says of it: the retry wrapper
  retries on any thrown error, application-level RPC errors included, up to the attempt
  budget; the budget is the retry library's default attempt cap; the delay before the
  retry after attempt \<open>n\<close> is \<open>min(maxDelay, minDelay * factor^(n-1))\<close>, randomized when
  jitter is enabled. The library's default cap is 10 retries, that is 11 attempts, and its
  jitter multiplies the delay by \<open>1 + u\<close> for a random \<open>u\<close> between 0 and 1, rounded to
  an integer before the cap is applied. The random numbers are a parameter \<open>rand\<close>. After
  the last retry the error of the last attempt is raised.
\<close>

text \<open>Modelled from the spec: the attempt budget, the library's default of 10 retries.\<close>

definition defaultRetries :: nat where
  "defaultRetries = 10"

text \<open>
  Modelled from the spec: the delay before retry number \<open>attempt\<close>, counted from 0, with
  the random number \<open>u\<close> drawn for it.
\<close>

definition retryTimeout :: "retry_options \<Rightarrow> rat \<Rightarrow> nat \<Rightarrow> nat" where
  "retryTimeout opts u attempt =
     (let random = (if randomize opts then u + 1 else 1);
          timeout = nat (round (random * of_nat (minTimeout opts) * of_nat (factor opts) ^ attempt))
      in min timeout (maxTimeout opts))"

text \<open>Modelled from the spec: the delays of the whole budget, one for each retry.\<close>

definition retryTimeouts :: "retry_options \<Rightarrow> (nat \<Rightarrow> rat) \<Rightarrow> nat list" where
  "retryTimeouts opts rand = map (\<lambda>i. retryTimeout opts (rand i) i) [0..<defaultRetries]"

text \<open>
  Modelled from the spec: the bounded retry loop. An attempt that returns ends the loop;
  an attempt that throws is followed by a sleep and the next attempt while a delay is
  left, and its error is raised when none is left.
\<close>

fun retryLoop ::
  "('p world \<Rightarrow> (js_error + 'a) \<times> 'p world) \<Rightarrow> nat list \<Rightarrow> 'p world \<Rightarrow> (js_error + 'a) \<times> 'p world" where
  "retryLoop input [] w = input w"
| "retryLoop input (t # ts) w =
     (case input w of
        (Inr v, w') \<Rightarrow> (Inr v, w')
      | (Inl e, w') \<Rightarrow> retryLoop input ts (w'\<lparr>slept := slept w' @ [t]\<rparr>))"

text \<open>Modelled from the spec: \<^verbatim>\<open>pRetry(input, options)\<close>.\<close>

definition pRetry ::
  "('p world \<Rightarrow> (js_error + 'a) \<times> 'p world) \<Rightarrow> retry_options \<Rightarrow> (nat \<Rightarrow> rat) \<Rightarrow> 'p world
     \<Rightarrow> (js_error + 'a) \<times> 'p world" where
  "pRetry input opts rand w = retryLoop input (retryTimeouts opts rand) w"

subsection \<open>\<^verbatim>\<open>tatumRpc\<close>\<close>

text \<open>
  The URL and the body are built once, before the loop; every attempt sends the same
  request.
\<close>

definition rpcRequest :: "Cfg \<Rightarrow> string \<Rightarrow> 'p \<Rightarrow> 'p http_request" where
  "rpcRequest cfg method params =
     \<lparr>url = ''https://'' @ chain cfg @ ''.gateway.tatum.io'',
      http_method = ''POST'',
      headers = [(''Content-Type'', ''application/json''), (''X-API-Key'', tatumApiKey cfg)],
      body = \<lparr>jsonrpc = ''2.0'', req_id = 1, req_method = method, req_params = params\<rparr>\<rparr>"

definition tatumRpc ::
  "(nat \<Rightarrow> 'r fetch_result) \<Rightarrow> (nat \<Rightarrow> rat) \<Rightarrow> Cfg \<Rightarrow> string \<Rightarrow> 'p \<Rightarrow> 'p world
     \<Rightarrow> (js_error + 'r) \<times> 'p world" where
  "tatumRpc transport rand cfg method params w =
     pRetry (rpcAttempt transport (rpcRequest cfg method params) method) RETRY rand w"

subsection \<open>The \<^verbatim>\<open>rpc_call\<close> tool\<close>

text \<open>
  The handler of \<^verbatim>\<open>rpc_call\<close>: the allow-list gate, the call of \<^verbatim>\<open>tatumRpc\<close>, and the
  text item built from \<^verbatim>\<open>JSON.stringify(result)\<close>; \<^verbatim>\<open>JSON.stringify\<close> is the parameter
  \<open>stringify\<close>.
\<close>

definition ALLOW_METHODS :: "string list" where
  "ALLOW_METHODS =
     [''eth_blockNumber'', ''eth_getBalance'', ''eth_getBlockByNumber'',
      ''eth_getTransactionByHash'', ''eth_getLogs'', ''eth_call'', ''eth_chainId'',
      ''eth_gasPrice'', ''eth_estimateGas'', ''eth_getCode'', ''eth_getTransactionReceipt'']"

record content_item =
  item_type :: string
  item_text :: string

definition rpc_call ::
  "('r \<Rightarrow> string) \<Rightarrow> (nat \<Rightarrow> 'r fetch_result) \<Rightarrow> (nat \<Rightarrow> rat) \<Rightarrow> Cfg \<Rightarrow> string \<Rightarrow> 'p \<Rightarrow> 'p world
     \<Rightarrow> (js_error + content_item list) \<times> 'p world" where
  "rpc_call stringify transport rand cfg method params w =
     (if method \<notin> set ALLOW_METHODS then (Inl (Error ''Method not allowed''), w)
      else
        (case tatumRpc transport rand cfg method params w of
           (Inl e, w') \<Rightarrow> (Inl e, w')
         | (Inr r, w') \<Rightarrow> (Inr [\<lparr>item_type = ''text'', item_text = stringify r\<rparr>], w')))"

subsection \<open>Concrete environments\<close>

text \<open>
  Transports, a jitter source and a configuration for the concrete instances below: a
  transport that always answers 200 with the error \<^verbatim>\<open>boom\<close>, one that always answers 404,
  one that always answers 403, and one that answers 429 to the first \<open>k\<close> requests and
  then 200 with a result.
\<close>

definition noJitter :: "nat \<Rightarrow> rat" where
  "noJitter i = 0"

definition exampleCfg :: Cfg where
  "exampleCfg = \<lparr>tatumApiKey = ''key'', chain = ''arbitrum-one-mainnet''\<rparr>"

definition boomTransport :: "nat \<Rightarrow> string option fetch_result" where
  "boomTransport i = Response 200 (Json \<lparr>error = Some \<lparr>message = Some ''boom''\<rparr>, result = None\<rparr>)"

definition notFoundTransport :: "nat \<Rightarrow> string option fetch_result" where
  "notFoundTransport i = Response 404 InvalidJson"

definition forbiddenTransport :: "nat \<Rightarrow> string option fetch_result" where
  "forbiddenTransport i = Response 403 InvalidJson"

definition rateLimitedTransport :: "nat \<Rightarrow> nat \<Rightarrow> string option fetch_result" where
  "rateLimitedTransport k i =
     (if i < k then Response 429 InvalidJson
      else Response 200 (Json \<lparr>error = None, result = Some ''0x1''\<rparr>))"

definition showResult :: "string option \<Rightarrow> string" where
  "showResult r = (case r of None \<Rightarrow> ''null'' | Some s \<Rightarrow> CHR 0x22 # s @ [CHR 0x22])"

section \<open>Lemmas about the built-ins and the formatter\<close>

lemma natToString_small: "n < 10 \<Longrightarrow> natToString n = [digitChar n]"
  by (simp add: natToString.simps)

lemma natToString_big:
  "10 \<le> n \<Longrightarrow> natToString n = natToString (n div 10) @ [digitChar (n mod 10)]"
  by (subst natToString.simps) simp

lemma natToString_not_Nil: "natToString n \<noteq> []"
  by (subst natToString.simps) simp

lemma below_ten_cases:
  assumes "d < (10::nat)"
  shows "d = 0 \<or> d = 1 \<or> d = 2 \<or> d = 3 \<or> d = 4 \<or> d = 5 \<or> d = 6 \<or> d = 7 \<or> d = 8 \<or> d = 9"
  using assms by arith

lemma digitValue_digitChar: "d < 10 \<Longrightarrow> digitValue (digitChar d) = Some d"
  using below_ten_cases [of d] by (auto simp: digitChar_def digitValue_def)

lemma digitChar_neq_dot: "d < 10 \<Longrightarrow> digitChar d \<noteq> CHR ''.''"
  using below_ten_cases [of d] by (auto simp: digitChar_def)

lemma digitChar_zero_iff: "d < 10 \<Longrightarrow> digitChar d = CHR ''0'' \<longleftrightarrow> d = 0"
  using below_ten_cases [of d] by (auto simp: digitChar_def)

lemma digitStep_digitChar: "d < 10 \<Longrightarrow> digitStep 10 (Some a) (digitChar d) = Some (10 * a + d)"
  by (simp add: digitStep_def digitValue_digitChar)

lemma foldl_digitStep_natToString:
  "foldl (digitStep 10) (Some a) (natToString n) = Some (a * 10 ^ length (natToString n) + n)"
proof (induction n arbitrary: a rule: natToString.induct)
  case (1 n)
  show ?case
  proof (cases "n < 10")
    case True
    then show ?thesis by (simp add: natToString_small digitStep_digitChar)
  next
    case False
    then have big: "natToString n = natToString (n div 10) @ [digitChar (n mod 10)]"
      by (simp add: natToString_big)
    have "foldl (digitStep 10) (Some a) (natToString n)
            = digitStep 10 (foldl (digitStep 10) (Some a) (natToString (n div 10))) (digitChar (n mod 10))"
      by (simp add: big)
    also have "\<dots> = Some (10 * (a * 10 ^ length (natToString (n div 10)) + n div 10) + n mod 10)"
      using "1.IH" [OF False, of a] by (simp add: digitStep_digitChar)
    also have "\<dots> = Some (a * 10 ^ length (natToString n) + n)"
      by (simp add: big algebra_simps)
    finally show ?thesis .
  qed
qed

lemma digitStep_zero: "digitStep 10 (Some 0) CHR ''0'' = Some 0"
  by (simp add: digitStep_def digitValue_def)

lemma foldl_digitStep_zeros:
  "foldl (digitStep 10) (Some 0) (replicate k CHR ''0'') = Some 0"
  by (induction k) (simp_all add: digitStep_zero)

lemma digitsValue_natToString: "digitsValue 10 (natToString n) = Some n"
  by (simp add: digitsValue_def natToString_not_Nil foldl_digitStep_natToString)

lemma digitsValue_zeros_natToString:
  "digitsValue 10 (replicate k CHR ''0'' @ natToString n) = Some n"
  by (simp add: digitsValue_def natToString_not_Nil foldl_digitStep_zeros foldl_digitStep_natToString)

lemma length_natToString_le: "0 < k \<Longrightarrow> n < 10 ^ k \<Longrightarrow> length (natToString n) \<le> k"
proof (induction n arbitrary: k rule: natToString.induct)
  case (1 n)
  show ?case
  proof (cases "n < 10")
    case True
    with "1.prems" show ?thesis by (simp add: natToString_small)
  next
    case False
    with "1.prems" have "1 < k"
      by (cases "k = 1") auto
    then obtain j where k: "k = Suc j" and j: "0 < j"
      by (cases k) auto
    from "1.prems" k have "n div 10 < 10 ^ j"
      by (simp add: less_mult_imp_div_less mult.commute)
    with "1.IH" [OF False j] have "length (natToString (n div 10)) \<le> j" .
    with False k show ?thesis by (simp add: natToString_big)
  qed
qed

lemma set_natToString_no_dot: "CHR ''.'' \<notin> set (natToString n)"
proof (induction n rule: natToString.induct)
  case (1 n)
  show ?case
  proof (cases "n < 10")
    case True
    then show ?thesis using digitChar_neq_dot [of n] by (auto simp: natToString_small)
  next
    case False
    then show ?thesis using "1.IH" digitChar_neq_dot [of "n mod 10"]
      by (auto simp: natToString_big)
  qed
qed

lemma set_toString_no_dot: "CHR ''.'' \<notin> set (toString i)"
  by (simp add: toString_def set_natToString_no_dot)

lemma replaceTrailingZeros_snoc:
  "replaceTrailingZeros (s @ [c]) = (if c = CHR ''0'' then replaceTrailingZeros s else s @ [c])"
  by (simp add: replaceTrailingZeros_def)

lemma replaceTrailingZeros_Nil: "replaceTrailingZeros [] = []"
  by (simp add: replaceTrailingZeros_def)

lemma replaceTrailingZeros_last:
  "replaceTrailingZeros s \<noteq> [] \<Longrightarrow> last (replaceTrailingZeros s) \<noteq> CHR ''0''"
  by (induction s rule: rev_induct)
    (simp_all add: replaceTrailingZeros_Nil replaceTrailingZeros_snoc split: if_splits)

lemma length_replaceTrailingZeros: "length (replaceTrailingZeros s) \<le> length s"
  by (simp add: replaceTrailingZeros_def length_dropWhile_le [of _ "rev s", simplified])

lemma replaceTrailingZeros_restore:
  "replaceTrailingZeros s @ replicate (length s - length (replaceTrailingZeros s)) CHR ''0'' = s"
proof (induction s rule: rev_induct)
  case Nil
  then show ?case by (simp add: replaceTrailingZeros_def)
next
  case (snoc c s)
  have len: "length (replaceTrailingZeros s) \<le> length s"
    by (rule length_replaceTrailingZeros)
  show ?case
  proof (cases "c = CHR ''0''")
    case True
    define m where "m = length s - length (replaceTrailingZeros s)"
    have "Suc (length s) - length (replaceTrailingZeros s) = Suc m"
      using len by (simp add: m_def)
    then have "replaceTrailingZeros (s @ [c])
                 @ replicate (length (s @ [c]) - length (replaceTrailingZeros (s @ [c]))) CHR ''0''
               = replaceTrailingZeros s @ replicate (Suc m) CHR ''0''"
      using True by (simp add: replaceTrailingZeros_snoc)
    also have "\<dots> = (replaceTrailingZeros s @ replicate m CHR ''0'') @ [CHR ''0'']"
      by (simp add: replicate_append_same)
    also have "\<dots> = s @ [c]"
      using snoc True by (simp add: m_def)
    finally show ?thesis .
  next
    case False
    then show ?thesis by (simp add: replaceTrailingZeros_snoc)
  qed
qed

lemma replaceTrailingZeros_no_dot:
  "CHR ''.'' \<notin> set s \<Longrightarrow> CHR ''.'' \<notin> set (replaceTrailingZeros s)"
  unfolding replaceTrailingZeros_def using set_dropWhileD [of _ _ "rev s"] by fastforce

lemma replaceTrailingZeros_zeros: "replaceTrailingZeros (replicate k CHR ''0'') = []"
  by (simp add: replaceTrailingZeros_def)

lemma padStart_zero:
  "padStart n ''0'' s = replicate (n - length s) CHR ''0'' @ s"
proof -
  have "concat (replicate k ''0'') = replicate k CHR ''0''" for k
    by (induction k) simp_all
  then show ?thesis by (simp add: padStart_def)
qed

lemma weiToEtherString_render:
  "hexToBigInt h = Inr m \<Longrightarrow> weiToEtherString h = Inr (renderFixed 18 m)"
  by (simp add: weiToEtherString_def renderFixed_def Let_def)

lemma tokenBalanceFormatted_render:
  "hexToBigInt h = Inr m \<Longrightarrow> 0 \<le> d \<Longrightarrow> tokenBalanceFormatted h d = Inr (renderFixed (nat d) m)"
  by (simp add: tokenBalanceFormatted_def renderFixed_def Let_def)

lemma sdiv_smod_nonneg:
  "0 \<le> a \<Longrightarrow> 0 < b \<Longrightarrow> a sdiv b = a div b \<and> a smod b = a mod (b::int)"
  by (simp add: signed_divide_int_def signed_modulo_int_def sgn_if)

lemma all_not_dot: "CHR ''.'' \<notin> set s \<Longrightarrow> \<forall>x\<in>set s. x \<noteq> CHR ''.''"
  by auto

lemma wholePart_plain: "CHR ''.'' \<notin> set s \<Longrightarrow> wholePart s = s"
  by (simp add: wholePart_def all_not_dot)

lemma fractionalPart_plain:
  assumes "CHR ''.'' \<notin> set s"
  shows "fractionalPart s = None"
proof -
  have "dropWhile (\<lambda>c. c \<noteq> CHR ''.'') s = []"
    using all_not_dot [OF assms] by simp
  then show ?thesis by (simp only: fractionalPart_def list.case)
qed

lemma wholePart_dot: "CHR ''.'' \<notin> set s \<Longrightarrow> wholePart (s @ CHR ''.'' # t) = s"
  using all_not_dot [of s] by (simp add: wholePart_def takeWhile_append2)

lemma fractionalPart_dot: "CHR ''.'' \<notin> set s \<Longrightarrow> fractionalPart (s @ CHR ''.'' # t) = Some t"
  using all_not_dot [of s] by (simp add: fractionalPart_def dropWhile_append2)

lemma renderFixed_cases:
  "renderFixed d v =
     (if replaceTrailingZeros (padStart d ''0'' (toString (v smod 10 ^ d))) = []
      then toString (v sdiv 10 ^ d)
      else toString (v sdiv 10 ^ d) @ CHR ''.'' # replaceTrailingZeros (padStart d ''0'' (toString (v smod 10 ^ d))))"
proof -
  let ?t = "replaceTrailingZeros (padStart d ''0'' (toString (v smod 10 ^ d)))"
  have "?t \<noteq> ''0''"
    using replaceTrailingZeros_last [of "padStart d ''0'' (toString (v smod 10 ^ d))"] by auto
  then show ?thesis
    by (simp add: renderFixed_def orElse_def)
qed

lemma trimmedFraction_renderFixed: "trimmedFraction (renderFixed d v)"
proof -
  let ?t = "replaceTrailingZeros (padStart d ''0'' (toString (v smod 10 ^ d)))"
  show ?thesis
  proof (cases "?t = []")
    case True
    then show ?thesis
      by (simp add: renderFixed_cases trimmedFraction_def fractionalPart_plain set_toString_no_dot)
  next
    case False
    then show ?thesis
      using replaceTrailingZeros_last [OF False]
      by (simp add: renderFixed_cases trimmedFraction_def fractionalPart_dot set_toString_no_dot)
  qed
qed

lemma renderFixed_whole:
  assumes "v smod 10 ^ d = 0"
  shows "renderFixed d v = toString (v sdiv 10 ^ d)"
proof -
  have "toString 0 = ''0''"
    by (simp add: toString_def natToString_small digitChar_def)
  then have "padStart d ''0'' (toString (v smod 10 ^ d)) = replicate (Suc (d - 1)) CHR ''0''"
    using assms by (simp add: padStart_zero replicate_append_same)
  then show ?thesis
    by (simp add: renderFixed_cases replaceTrailingZeros_zeros del: replicate_Suc)
qed

lemma scaledValue_renderFixed:
  assumes "0 \<le> v"
  shows "scaledValue d (renderFixed d v) = Some (nat v)"
proof -
  define w where "w = nat (v div 10 ^ d)"
  define f where "f = nat (v mod 10 ^ d)"
  define p where "p = padStart d ''0'' (natToString f)"
  have pos: "(0::int) < 10 ^ d" by simp
  have whole: "toString (v sdiv 10 ^ d) = natToString w"
    using assms sdiv_smod_nonneg [OF assms pos] by (simp add: toString_def w_def not_less pos_imp_zdiv_nonneg_iff)
  have frac: "toString (v smod 10 ^ d) = natToString f"
  proof -
    have "0 \<le> v mod 10 ^ d" using pos by simp
    then show ?thesis
      using sdiv_smod_nonneg [OF assms pos] by (simp add: toString_def f_def not_less)
  qed
  have f_less: "f < 10 ^ d"
  proof -
    have "v mod 10 ^ d < 10 ^ d" using pos by (rule pos_mod_bound)
    then show ?thesis by (simp add: f_def nat_less_iff)
  qed
  have total: "w * 10 ^ d + f = nat v"
  proof -
    have "int (w * 10 ^ d + f) = v div 10 ^ d * 10 ^ d + v mod 10 ^ d"
      using assms by (simp add: w_def f_def pos_imp_zdiv_nonneg_iff)
    then have "int (w * 10 ^ d + f) = v" by (simp only: div_mult_mod_eq)
    then show ?thesis by linarith
  qed
  have p_val: "digitsValue 10 p = Some f"
    by (simp add: p_def padStart_zero digitsValue_zeros_natToString)
  have render: "renderFixed d v =
      (if replaceTrailingZeros p = [] then natToString w
       else natToString w @ CHR ''.'' # replaceTrailingZeros p)"
    by (simp only: renderFixed_cases whole frac p_def)
  have restore: "replaceTrailingZeros p @ replicate (length p - length (replaceTrailingZeros p)) CHR ''0'' = p"
    by (rule replaceTrailingZeros_restore)
  show ?thesis
  proof (cases "replaceTrailingZeros p = []")
    case True
    with restore have "p = replicate (length p) CHR ''0''" by simp
    moreover have "p \<noteq> []" by (simp add: p_def padStart_zero natToString_not_Nil)
    ultimately have "digitsValue 10 p = Some 0"
      by (metis digitsValue_def foldl_digitStep_zeros)
    with p_val have "f = 0" by simp
    with True total show ?thesis
      by (simp add: render scaledValue_def wholePart_plain fractionalPart_plain
          set_natToString_no_dot digitsValue_natToString)
  next
    case False
    have "d \<noteq> 0"
    proof
      assume "d = 0"
      with f_less have "f = 0" by simp
      with \<open>d = 0\<close> have "p = ''0''"
        by (simp add: p_def padStart_zero natToString_small digitChar_def)
      with False show False by (simp add: replaceTrailingZeros_def)
    qed
    then have "length (natToString f) \<le> d"
      using f_less by (simp add: length_natToString_le)
    then have len_p: "length p = d"
      by (simp add: p_def padStart_zero)
    have len_t: "length (replaceTrailingZeros p) \<le> d"
      using length_replaceTrailingZeros [of p] len_p by simp
    from restore len_p
    have "replaceTrailingZeros p @ replicate (d - length (replaceTrailingZeros p)) CHR ''0'' = p"
      by simp
    with False len_t p_val total show ?thesis
      by (simp add: render scaledValue_def wholePart_dot fractionalPart_dot
          set_natToString_no_dot digitsValue_natToString)
  qed
qed

lemmas formatter_eval =
  weiToEtherString_def tokenBalanceFormatted_def hexToBigInt_def BigInt_def StringToBigInt_def
  trimString_def isStrWhiteSpaceChar_def digitsValue_def digitStep_def digitValue_def
  toString_def padStart_def replaceTrailingZeros_def orElse_def natToString_small
  natToString_big digitChar_def Let_def

lemma digitValue_less_16: "digitValue c = Some d \<Longrightarrow> d < 16"
  by (auto simp: digitValue_def Let_def split: if_splits)

lemma digitValue_not_space: "digitValue c \<noteq> None \<Longrightarrow> \<not> isStrWhiteSpaceChar c"
  by (auto simp: digitValue_def isStrWhiteSpaceChar_def Let_def split: if_splits)


lemma trimString_id:
  assumes "s \<noteq> []" and "\<not> isStrWhiteSpaceChar (hd s)" and "\<not> isStrWhiteSpaceChar (last s)"
  shows "trimString s = s"
proof -
  from assms(1,2) have front: "dropWhile isStrWhiteSpaceChar s = s"
    by (cases s) simp_all
  from assms(1,3) have "dropWhile isStrWhiteSpaceChar (rev s) = rev s"
    by (cases s rule: rev_cases) simp_all
  with front show ?thesis by (simp add: trimString_def)
qed


lemma foldl_digitStep_Some:
  "list_all (\<lambda>c. \<exists>d. digitValue c = Some d \<and> d < r) ds \<Longrightarrow>
     \<exists>n. foldl (digitStep r) (Some a) ds = Some n"
proof (induction ds arbitrary: a)
  case Nil
  then show ?case by simp
next
  case (Cons c ds)
  then obtain d where "digitValue c = Some d" "d < r" by auto
  then have "digitStep r (Some a) c = Some (r * a + d)" by (simp add: digitStep_def)
  with Cons show ?case by simp
qed


lemma isHexDigits_value: "isHexDigits ds \<Longrightarrow> \<exists>n. digitsValue 16 ds = Some n"
proof -
  assume h: "isHexDigits ds"
  then have "list_all (\<lambda>c. \<exists>d. digitValue c = Some d \<and> d < 16) ds"
    by (auto simp: isHexDigits_def list_all_iff digitValue_less_16)
  from foldl_digitStep_Some [OF this] h show ?thesis
    by (simp add: digitsValue_def isHexDigits_def)
qed





lemma hexToBigInt_prefixed:
  assumes "isHexDigits ds"
  shows "\<exists>n. digitsValue 16 ds = Some n \<and> hexToBigInt (''0x'' @ ds) = Inr (int n)"
proof -
  from isHexDigits_value [OF assms] obtain n where n: "digitsValue 16 ds = Some n" ..
  have "last (''0x'' @ ds) \<in> set ds"
    using assms by (simp add: isHexDigits_def)
  then have "\<not> isStrWhiteSpaceChar (last (''0x'' @ ds))"
    using assms by (auto simp: isHexDigits_def list_all_iff digitValue_not_space simp del: last_append last_ConsR)
  moreover have "\<not> isStrWhiteSpaceChar (hd (''0x'' @ ds))"
    by (simp add: isStrWhiteSpaceChar_def)
  ultimately have "trimString (''0x'' @ ds) = ''0x'' @ ds"
    by (intro trimString_id) simp_all
  then have "StringToBigInt (''0x'' @ ds) = Some (int n)"
    using n by (simp add: StringToBigInt_def)
  with n show ?thesis by (simp add: hexToBigInt_def BigInt_def)
qed




section \<open>Lemmas about the retry loop\<close>

lemma rpcAttempt_eq:
  "rpcAttempt transport rq method w
     = (handleResponse method (transport (length (sent w))), w\<lparr>sent := sent w @ [rq]\<rparr>)"
  by (simp add: rpcAttempt_def fetch_def)

lemma retryLoop_all_fail:
  assumes "\<forall>i \<le> length ts. handleResponse method (transport (length (sent w) + i)) = Inl e"
  shows "retryLoop (rpcAttempt transport rq method) ts w
           = (Inl e, w\<lparr>sent := sent w @ replicate (Suc (length ts)) rq, slept := slept w @ ts\<rparr>)"
  using assms
proof (induction ts arbitrary: w)
  case Nil
  then show ?case by (simp add: rpcAttempt_eq)
next
  case (Cons t ts)
  let ?w = "w\<lparr>sent := sent w @ [rq], slept := slept w @ [t]\<rparr>"
  from Cons.prems have first: "handleResponse method (transport (length (sent w))) = Inl e"
    by (metis add.right_neutral le0)
  have "\<forall>i \<le> length ts. handleResponse method (transport (length (sent ?w) + i)) = Inl e"
  proof (intro allI impI)
    fix i assume "i \<le> length ts"
    then have "Suc i \<le> length (t # ts)" by simp
    with Cons.prems have "handleResponse method (transport (length (sent w) + Suc i)) = Inl e"
      by blast
    then show "handleResponse method (transport (length (sent ?w) + i)) = Inl e" by simp
  qed
  from Cons.IH [OF this] first show ?case
    by (simp add: rpcAttempt_eq replicate_app_Cons_same)
qed

lemma retryLoop_success:
  assumes "k \<le> length ts"
    and "\<forall>i < k. \<exists>e. handleResponse method (transport (length (sent w) + i)) = Inl e"
    and "handleResponse method (transport (length (sent w) + k)) = Inr r"
  shows "retryLoop (rpcAttempt transport rq method) ts w
           = (Inr r, w\<lparr>sent := sent w @ replicate (Suc k) rq, slept := slept w @ take k ts\<rparr>)"
  using assms
proof (induction k arbitrary: ts w)
  case 0
  then show ?case by (cases ts) (simp_all add: rpcAttempt_eq)
next
  case (Suc k)
  from Suc.prems(1) obtain t ts' where ts: "ts = t # ts'" and k: "k \<le> length ts'"
    by (cases ts) auto
  let ?w = "w\<lparr>sent := sent w @ [rq], slept := slept w @ [t]\<rparr>"
  from Suc.prems(2) obtain e where first: "handleResponse method (transport (length (sent w))) = Inl e"
    by (metis add.right_neutral zero_less_Suc)
  have later: "\<forall>i < k. \<exists>e. handleResponse method (transport (length (sent ?w) + i)) = Inl e"
  proof (intro allI impI)
    fix i assume "i < k"
    then have "Suc i < Suc k" by simp
    with Suc.prems(2) have "\<exists>e. handleResponse method (transport (length (sent w) + Suc i)) = Inl e"
      by blast
    then show "\<exists>e. handleResponse method (transport (length (sent ?w) + i)) = Inl e" by simp
  qed
  have last: "handleResponse method (transport (length (sent ?w) + k)) = Inr r"
    using Suc.prems(3) by simp
  from Suc.IH [OF k later last] first show ?case
    by (simp add: ts rpcAttempt_eq replicate_app_Cons_same)
qed

lemma retryTimeout_bounded: "retryTimeout RETRY u i \<le> 8000"
  by (simp add: retryTimeout_def RETRY_def Let_def)

lemma retryTimeout_RETRY:
  "retryTimeout RETRY u i = min (nat (round ((u + 1) * 500 * 2 ^ i))) 8000"
  by (simp add: retryTimeout_def RETRY_def Let_def)

lemma retryTimeout_mono:
  assumes "u \<le> 1" and "0 \<le> u'"
  shows "retryTimeout RETRY u i \<le> retryTimeout RETRY u' (Suc i)"
proof -
  have "(u + 1) * 500 * 2 ^ i \<le> (u' + 1) * 500 * 2 ^ Suc i"
  proof -
    have "(u + 1) * 500 * 2 ^ i \<le> 2 * 500 * 2 ^ i"
      using assms(1) by (simp add: mult_right_mono)
    also have "\<dots> \<le> (u' + 1) * 500 * 2 ^ Suc i"
      using assms(2) by (simp add: mult_right_mono)
    finally show ?thesis .
  qed
  then have "round ((u + 1) * 500 * 2 ^ i) \<le> round ((u' + 1) * 500 * 2 ^ Suc i)"
    by (rule round_mono)
  then have "nat (round ((u + 1) * 500 * 2 ^ i)) \<le> nat (round ((u' + 1) * 500 * 2 ^ Suc i))"
    by (rule nat_mono)
  then have "min (nat (round ((u + 1) * 500 * 2 ^ i))) 8000
               \<le> min (nat (round ((u' + 1) * 500 * 2 ^ Suc i))) (8000::nat)"
    by (rule min.mono) simp
  then show ?thesis
    by (simp only: retryTimeout_RETRY)
qed

lemma sorted_retryTimeouts:
  assumes "\<forall>i. 0 \<le> rand i \<and> rand i \<le> 1"
  shows "sorted (retryTimeouts RETRY rand)"
proof -
  let ?f = "\<lambda>i. retryTimeout RETRY (rand i) i"
  have step: "?f n \<le> ?f (Suc n)" for n
    using assms by (simp add: retryTimeout_mono)
  have "?f i \<le> ?f j" if "i \<le> j" for i j
    using step that by (rule lift_Suc_mono_le)
  then show ?thesis
    by (simp add: retryTimeouts_def sorted_iff_nth_mono)
qed

lemma length_retryTimeouts: "length (retryTimeouts opts rand) = 10"
  by (simp add: retryTimeouts_def defaultRetries_def)

lemma retryTimeouts_bounded: "\<forall>t \<in> set (retryTimeouts RETRY rand). t \<le> 8000"
  by (simp add: retryTimeouts_def retryTimeout_bounded)

lemma tatumRpc_all_fail:
  assumes "\<forall>i \<le> 10. handleResponse method (transport i) = Inl e"
  shows "tatumRpc transport rand cfg method params idle
           = (Inl e, \<lparr>sent = replicate 11 (rpcRequest cfg method params),
                      slept = retryTimeouts RETRY rand\<rparr>)"
proof -
  have "\<forall>i \<le> length (retryTimeouts RETRY rand).
          handleResponse method (transport (length (sent (idle :: 'c world)) + i)) = Inl e"
    using assms by (simp add: length_retryTimeouts idle_def)
  from retryLoop_all_fail [OF this, of "rpcRequest cfg method params"]
  show ?thesis
    by (simp add: tatumRpc_def pRetry_def length_retryTimeouts idle_def)
qed

lemma tatumRpc_fails_k_then_ok:
  assumes "k \<le> 10"
    and "\<forall>i < k. \<exists>e. handleResponse method (transport i) = Inl e"
    and "handleResponse method (transport k) = Inr r"
  shows "tatumRpc transport rand cfg method params idle
           = (Inr r, \<lparr>sent = replicate (Suc k) (rpcRequest cfg method params),
                      slept = take k (retryTimeouts RETRY rand)\<rparr>)"
proof -
  have a: "k \<le> length (retryTimeouts RETRY rand)"
    using assms(1) by (simp add: length_retryTimeouts)
  have b: "\<forall>i < k. \<exists>e. handleResponse method (transport (length (sent (idle :: 'c world)) + i)) = Inl e"
    using assms(2) by (simp add: idle_def)
  have c: "handleResponse method (transport (length (sent (idle :: 'c world)) + k)) = Inr r"
    using assms(3) by (simp add: idle_def)
  from retryLoop_success [OF a b c, of "rpcRequest cfg method params"]
  show ?thesis
    by (simp add: tatumRpc_def pRetry_def idle_def)
qed

lemma natToString_status:
  "natToString 403 = ''403''" "natToString 404 = ''404''" "natToString 429 = ''429''"
  by (simp_all add: natToString_small natToString_big digitChar_def)

lemma retryLoop_sent:
  "\<exists>n. sent (snd (retryLoop (rpcAttempt transport rq method) ts w)) = sent w @ replicate (Suc n) rq"
proof (induction ts arbitrary: w)
  case Nil
  have "sent w @ [rq] = sent w @ replicate (Suc 0) rq" by simp
  then show ?case by (auto simp: rpcAttempt_eq simp del: replicate_Suc)
next
  case (Cons t ts)
  let ?w = "w\<lparr>sent := sent w @ [rq], slept := slept w @ [t]\<rparr>"
  show ?case
  proof (cases "handleResponse method (transport (length (sent w)))")
    case (Inl e)
    from Cons.IH [of ?w] obtain n
      where "sent (snd (retryLoop (rpcAttempt transport rq method) ts ?w)) = sent ?w @ replicate (Suc n) rq" ..
    then have "sent (snd (retryLoop (rpcAttempt transport rq method) (t # ts) w))
                 = sent w @ replicate (Suc (Suc n)) rq"
      using Inl by (simp add: rpcAttempt_eq)
    then show ?thesis by blast
  next
    case (Inr v)
    have "sent (snd (retryLoop (rpcAttempt transport rq method) (t # ts) w)) = sent w @ replicate (Suc 0) rq"
      using Inr by (simp add: rpcAttempt_eq)
    then show ?thesis by blast
  qed
qed

lemma tatumRpc_sent:
  "\<exists>n. sent (snd (tatumRpc transport rand cfg method params w))
         = sent w @ replicate (Suc n) (rpcRequest cfg method params)"
  unfolding tatumRpc_def pRetry_def by (rule retryLoop_sent)

section \<open>Properties of the formatter\<close>

text \<open>
  C1, as stated: for every valid hexadecimal string \<open>h\<close> denoting a non-negative
  magnitude, the string returned by \<^verbatim>\<open>weiToEtherString(h)\<close> reads back to that magnitude.
  The bare hexadecimal string \<^verbatim>\<open>ff\<close> is valid and nothing is returned for it; the bare
  hexadecimal string \<^verbatim>\<open>10\<close> denotes 16 and the string returned for it reads back to 10.
\<close>

theorem weiToEtherString_bare_hex_counterexample:
  "validHexadecimal ''ff'' \<and> weiToEtherString ''ff'' = Inl SyntaxError
   \<and> validHexadecimal ''10'' \<and> digitsValue 16 ''10'' = Some 16
   \<and> weiToEtherString ''10'' = Inr ''0.00000000000000001''
   \<and> scaledValue 18 ''0.00000000000000001'' = Some 10"
proof -
  have zeros: "replicate 16 CHR ''0'' = ''0000000000000000''"
    by (simp add: eval_nat_numeral)
  have valid: "validHexadecimal ''ff''" "validHexadecimal ''10''"
    by (simp_all add: validHexadecimal_def isHexDigits_def digitValue_def)
  have rejected: "weiToEtherString ''ff'' = Inl SyntaxError"
    by (simp add: formatter_eval)
  have denoted: "digitsValue 16 ''10'' = Some 16"
    by (simp add: formatter_eval)
  have returned: "weiToEtherString ''10'' = Inr ''0.00000000000000001''"
    by (simp add: signed_divide_int_def signed_modulo_int_def formatter_eval zeros)
  have readback: "scaledValue 18 ''0.00000000000000001'' = Some 10"
    by (simp add: scaledValue_def wholePart_def fractionalPart_def formatter_eval)
  from valid rejected denoted returned readback show ?thesis by simp
qed

text \<open>
  C1, amended: for every \<^verbatim>\<open>0x\<close>-prefixed hexadecimal string \<open>h\<close>, that is \<^verbatim>\<open>0x\<close> followed
  by one or more hexadecimal digits denoting the magnitude \<open>n\<close>, \<^verbatim>\<open>weiToEtherString(h)\<close>
  returns a string that reads back to \<open>n\<close>: its whole part times \<open>10^18\<close> plus its
  fractional part, read as an integer scaled to 18 digits, is \<open>n\<close>.
\<close>

theorem weiToEtherString_roundtrip:
  assumes "isHexDigits ds"
  shows "\<exists>n s. digitsValue 16 ds = Some n \<and> weiToEtherString (''0x'' @ ds) = Inr s
           \<and> scaledValue 18 s = Some n"
proof -
  from hexToBigInt_prefixed [OF assms] obtain n
    where n: "digitsValue 16 ds = Some n" and h: "hexToBigInt (''0x'' @ ds) = Inr (int n)"
    by blast
  have "weiToEtherString (''0x'' @ ds) = Inr (renderFixed 18 (int n))"
    using h by (rule weiToEtherString_render)
  moreover have "scaledValue 18 (renderFixed 18 (int n)) = Some (nat (int n))"
    by (rule scaledValue_renderFixed) simp
  ultimately show ?thesis using n by simp
qed

theorem weiToEtherString_roundtrip_witness:
  "isHexDigits ''14d1120d7b160000''
   \<and> digitsValue 16 ''14d1120d7b160000'' = Some 1500000000000000000
   \<and> weiToEtherString ''0x14d1120d7b160000'' = Inr ''1.5''
   \<and> scaledValue 18 ''1.5'' = Some 1500000000000000000"
proof -
  have d: "isHexDigits ''14d1120d7b160000''"
    by (simp add: isHexDigits_def digitValue_def)
  have v: "digitsValue 16 ''14d1120d7b160000'' = Some 1500000000000000000"
    by (simp add: formatter_eval)
  have w: "weiToEtherString ''0x14d1120d7b160000'' = Inr ''1.5''"
    by (simp add: signed_divide_int_def signed_modulo_int_def formatter_eval)
  from weiToEtherString_roundtrip [OF d] v w show ?thesis
    using d by auto
qed

text \<open>
  C6. For every hexadecimal input and every number of decimals, the fractional part of the
  formatted output (what follows the \<^verbatim>\<open>.\<close>) is not empty and does not end in the digit
  \<^verbatim>\<open>0\<close>; when the remainder is zero the \<^verbatim>\<open>.\<close> and the fractional part are left out and
  the output is the whole part alone. Stated for \<^verbatim>\<open>weiToEtherString\<close> and for the inline
  formatter of \<^verbatim>\<open>get_token_balance\<close> at any \<open>decimals \<ge> 0\<close>.
\<close>

theorem formatted_fraction_trimmed:
  assumes "hexToBigInt h = Inr m" and "0 \<le> d"
  shows "\<exists>s t. weiToEtherString h = Inr s \<and> tokenBalanceFormatted h d = Inr t
           \<and> trimmedFraction s \<and> trimmedFraction t
           \<and> (m smod 10 ^ 18 = 0 \<longrightarrow> s = toString (m sdiv 10 ^ 18))
           \<and> (m smod 10 ^ nat d = 0 \<longrightarrow> t = toString (m sdiv 10 ^ nat d))"
  using assms
  by (simp add: weiToEtherString_render tokenBalanceFormatted_render
      trimmedFraction_renderFixed renderFixed_whole)

theorem formatted_fraction_trimmed_witness:
  "hexToBigInt ''0xde0b6b3a7640000'' = Inr 1000000000000000000
   \<and> (0::int) \<le> 6
   \<and> (1000000000000000000::int) smod 10 ^ 18 = 0
   \<and> (1000000000000000000::int) smod 10 ^ nat 6 = 0
   \<and> weiToEtherString ''0xde0b6b3a7640000'' = Inr (toString (1000000000000000000 sdiv 10 ^ 18))
   \<and> tokenBalanceFormatted ''0xde0b6b3a7640000'' 6
        = Inr (toString (1000000000000000000 sdiv 10 ^ nat 6))
   \<and> trimmedFraction (toString (1000000000000000000 sdiv 10 ^ 18))
   \<and> trimmedFraction (toString (1000000000000000000 sdiv 10 ^ nat 6))"
proof -
  have h: "hexToBigInt ''0xde0b6b3a7640000'' = Inr 1000000000000000000"
    by (simp add: formatter_eval)
  have d: "(0::int) \<le> 6" by simp
  have z: "(1000000000000000000::int) smod 10 ^ 18 = 0" "(1000000000000000000::int) smod 10 ^ nat 6 = 0"
    by (simp_all add: signed_modulo_int_def)
  from formatted_fraction_trimmed [OF h d] z h d show ?thesis
    by auto
qed

text \<open>
  C7. \<^verbatim>\<open>weiToEtherString("0x0")\<close> is exactly \<^verbatim>\<open>"0"\<close>, and
  \<^verbatim>\<open>weiToEtherString("0xde0b6b3a7640000")\<close>, which is \<open>10^18\<close> wei, is exactly \<^verbatim>\<open>"1"\<close>.
\<close>

theorem weiToEtherString_zero_and_one_ether:
  "weiToEtherString ''0x0'' = Inr ''0'' \<and> weiToEtherString ''0xde0b6b3a7640000'' = Inr ''1''"
  by (simp add: formatter_eval)




text \<open>
  C10. The inline fixed-point formatting of the \<^verbatim>\<open>get_token_balance\<close> handler, at
  \<open>decimals = 18\<close>, produces the same result as \<^verbatim>\<open>weiToEtherString\<close> on every balance
  string, errors included.
\<close>

theorem tokenBalanceFormatted_18_eq_weiToEtherString:
  "tokenBalanceFormatted h 18 = weiToEtherString h"
  by (cases "hexToBigInt h") (simp_all add: tokenBalanceFormatted_def weiToEtherString_def Let_def)

section \<open>Properties of the client and of the allow-list\<close>

text \<open>
  C2, as stated: when the transport answers HTTP 200 with the body
  \<^verbatim>\<open>{"error":{"message":"boom"}}\<close>, the call raises the error \<^verbatim>\<open>boom\<close> after exactly one
  HTTP attempt. With that answer to every request the call raises \<^verbatim>\<open>boom\<close>, but after
  11 attempts.
\<close>

theorem application_error_single_attempt_counterexample:
  "fst (tatumRpc boomTransport noJitter exampleCfg ''eth_call'' ([] :: string list) idle) = Inl (Error ''boom'')
   \<and> length (sent (snd (tatumRpc boomTransport noJitter exampleCfg ''eth_call'' ([] :: string list) idle))) = 11
   \<and> length (sent (snd (tatumRpc boomTransport noJitter exampleCfg ''eth_call'' ([] :: string list) idle))) \<noteq> 1"
proof -
  have "\<forall>i \<le> 10. handleResponse ''eth_call'' (boomTransport i) = Inl (Error ''boom'')"
    by (simp add: handleResponse_def boomTransport_def orElse_def)
  from tatumRpc_all_fail [OF this, of noJitter exampleCfg "[] :: string list"]
  show ?thesis by simp
qed

text \<open>
  C2, amended: when the transport answers every request with HTTP 200 and the body
  \<^verbatim>\<open>{"error":{"message":"boom"}}\<close>, \<^verbatim>\<open>tatumRpc\<close> raises an error with the message
  \<^verbatim>\<open>boom\<close> after exactly 11 HTTP attempts: the application error is retried like any
  other thrown error.
\<close>

theorem application_error_is_retried:
  assumes "\<forall>i. \<exists>r. transport i = Response 200 (Json \<lparr>error = Some \<lparr>message = Some ''boom''\<rparr>, result = r\<rparr>)"
  shows "fst (tatumRpc transport rand cfg method params idle) = Inl (Error ''boom'')
         \<and> length (sent (snd (tatumRpc transport rand cfg method params idle))) = 11"
proof -
  have "\<forall>i \<le> 10. handleResponse method (transport i) = Inl (Error ''boom'')"
  proof (intro allI impI)
    fix i :: nat
    from assms obtain r
      where "transport i = Response 200 (Json \<lparr>error = Some \<lparr>message = Some ''boom''\<rparr>, result = r\<rparr>)"
      by blast
    then show "handleResponse method (transport i) = Inl (Error ''boom'')"
      by (simp add: handleResponse_def orElse_def)
  qed
  from tatumRpc_all_fail [OF this, of rand cfg params] show ?thesis by simp
qed

theorem application_error_is_retried_witness:
  "fst (tatumRpc boomTransport noJitter exampleCfg ''eth_getBalance'' [''0xabc'', ''latest''] idle)
     = Inl (Error ''boom'')
   \<and> length (sent (snd (tatumRpc boomTransport noJitter exampleCfg ''eth_getBalance''
        [''0xabc'', ''latest''] idle))) = 11"
  using application_error_is_retried [of boomTransport noJitter exampleCfg "''eth_getBalance''" "[''0xabc'', ''latest'']"]
  by (simp add: boomTransport_def)

text \<open>
  C3, as stated: when the transport answers a status that is not 2xx and not 429, 403 or
  503, such as 404, the call raises a failure naming the method and the status after
  exactly one HTTP attempt. With 404 to every request the message is as claimed, but the
  call makes 11 attempts.
\<close>

theorem transport_failure_single_attempt_counterexample:
  "fst (tatumRpc notFoundTransport noJitter exampleCfg ''eth_call'' ([] :: string list) idle)
     = Inl (Error ''RPC eth_call failed 404'')
   \<and> length (sent (snd (tatumRpc notFoundTransport noJitter exampleCfg ''eth_call'' ([] :: string list) idle))) = 11
   \<and> length (sent (snd (tatumRpc notFoundTransport noJitter exampleCfg ''eth_call'' ([] :: string list) idle))) \<noteq> 1"
proof -
  have "\<forall>i \<le> 10. handleResponse ''eth_call'' (notFoundTransport i)
                    = Inl (Error ''RPC eth_call failed 404'')"
    by (simp add: handleResponse_def notFoundTransport_def natToString_status)
  from tatumRpc_all_fail [OF this, of noJitter exampleCfg "[] :: string list"]
  show ?thesis by simp
qed

text \<open>
  C3, amended: when the transport answers every request with the same status, not 2xx and
  not 429, 403 or 503, \<^verbatim>\<open>tatumRpc\<close> raises an error whose message is
  \<^verbatim>\<open>RPC <method> failed <status>\<close> after exactly 11 HTTP attempts.
\<close>

theorem transport_failure_is_retried:
  assumes "\<forall>i. \<exists>b. transport i = Response st b"
    and "st \<noteq> 429" and "st \<noteq> 403" and "st \<noteq> 503"
    and "\<not> (200 \<le> st \<and> st \<le> 299)"
  shows "fst (tatumRpc transport rand cfg method params idle)
           = Inl (Error (''RPC '' @ method @ '' failed '' @ natToString st))
         \<and> length (sent (snd (tatumRpc transport rand cfg method params idle))) = 11"
proof -
  have "\<forall>i \<le> 10. handleResponse method (transport i)
               = Inl (Error (''RPC '' @ method @ '' failed '' @ natToString st))"
  proof (intro allI impI)
    fix i :: nat
    from assms(1) obtain b where "transport i = Response st b" by blast
    with assms(2-5) show "handleResponse method (transport i)
               = Inl (Error (''RPC '' @ method @ '' failed '' @ natToString st))"
      by (simp add: handleResponse_def)
  qed
  from tatumRpc_all_fail [OF this, of rand cfg params] show ?thesis by simp
qed

theorem transport_failure_is_retried_witness:
  "(404::nat) \<noteq> 429 \<and> (404::nat) \<noteq> 403 \<and> (404::nat) \<noteq> 503 \<and> \<not> (200 \<le> (404::nat) \<and> (404::nat) \<le> 299)
   \<and> fst (tatumRpc notFoundTransport noJitter exampleCfg ''eth_getCode'' [''0xabc''] idle)
        = Inl (Error ''RPC eth_getCode failed 404'')
   \<and> length (sent (snd (tatumRpc notFoundTransport noJitter exampleCfg ''eth_getCode'' [''0xabc''] idle))) = 11"
  using transport_failure_is_retried [of notFoundTransport 404 noJitter exampleCfg "''eth_getCode''" "[''0xabc'']"]
  by (simp add: notFoundTransport_def natToString_status)

text \<open>
  C4, as stated: for every \<open>k \<ge> 0\<close>, 429 on the first \<open>k\<close> attempts and then a well-formed
  2xx answer make the call return the result after \<open>k + 1\<close> attempts. At \<open>k = 11\<close> the
  call raises the rate error after 11 attempts and never sends the twelfth request.
\<close>

theorem rate_limited_beyond_budget_counterexample:
  "rateLimitedTransport 11 10 = Response 429 InvalidJson
   \<and> rateLimitedTransport 11 11 = Response 200 (Json \<lparr>error = None, result = Some ''0x1''\<rparr>)
   \<and> fst (tatumRpc (rateLimitedTransport 11) noJitter exampleCfg ''eth_call'' ([] :: string list) idle)
        = Inl (Error ''Rate/Service error 429'')
   \<and> length (sent (snd (tatumRpc (rateLimitedTransport 11) noJitter exampleCfg ''eth_call'' ([] :: string list) idle))) = 11"
proof -
  have "\<forall>i \<le> 10. handleResponse ''eth_call'' (rateLimitedTransport 11 i)
                    = Inl (Error ''Rate/Service error 429'')"
    by (simp add: handleResponse_def rateLimitedTransport_def natToString_status)
  from tatumRpc_all_fail [OF this, of noJitter exampleCfg "[] :: string list"]
  have run: "fst (tatumRpc (rateLimitedTransport 11) noJitter exampleCfg ''eth_call'' ([] :: string list) idle)
        = Inl (Error ''Rate/Service error 429'')
   \<and> length (sent (snd (tatumRpc (rateLimitedTransport 11) noJitter exampleCfg ''eth_call'' ([] :: string list) idle))) = 11"
    by simp
  have "rateLimitedTransport 11 10 = Response 429 InvalidJson"
    "rateLimitedTransport 11 11 = Response 200 (Json \<lparr>error = None, result = Some ''0x1''\<rparr>)"
    by (simp_all add: rateLimitedTransport_def)
  with run show ?thesis by simp
qed

text \<open>
  C4, amended: for every \<open>k\<close> from 0 to 10, if the transport answers 429 to the first \<open>k\<close>
  requests and then a 2xx response with a well-formed result, \<^verbatim>\<open>tatumRpc\<close> returns that
  result after exactly \<open>k + 1\<close> HTTP attempts; it sleeps \<open>k\<close> times, the delays are
  non-decreasing and each is at most 8000 ms, whatever the jitter between 0 and 1.
\<close>

theorem rate_limited_then_success:
  assumes "k \<le> 10"
    and "\<forall>i < k. \<exists>b. transport i = Response 429 b"
    and "transport k = Response st (Json \<lparr>error = None, result = r\<rparr>)"
    and "200 \<le> st" and "st \<le> 299"
    and "\<forall>i. 0 \<le> rand i \<and> rand i \<le> 1"
  shows "fst (tatumRpc transport rand cfg method params idle) = Inr r
         \<and> length (sent (snd (tatumRpc transport rand cfg method params idle))) = k + 1
         \<and> length (slept (snd (tatumRpc transport rand cfg method params idle))) = k
         \<and> sorted (slept (snd (tatumRpc transport rand cfg method params idle)))
         \<and> list_all (\<lambda>t. t \<le> 8000) (slept (snd (tatumRpc transport rand cfg method params idle)))"
proof -
  have fails: "\<forall>i < k. \<exists>e. handleResponse method (transport i) = Inl e"
  proof (intro allI impI)
    fix i assume "i < k"
    with assms(2) obtain b where "transport i = Response 429 b" by blast
    then show "\<exists>e. handleResponse method (transport i) = Inl e"
      by (simp add: handleResponse_def)
  qed
  have ok: "handleResponse method (transport k) = Inr r"
    using assms(3-5) by (simp add: handleResponse_def)
  have run: "tatumRpc transport rand cfg method params idle
           = (Inr r, \<lparr>sent = replicate (Suc k) (rpcRequest cfg method params),
                      slept = take k (retryTimeouts RETRY rand)\<rparr>)"
    by (rule tatumRpc_fails_k_then_ok [OF assms(1) fails ok])
  have "sorted (take k (retryTimeouts RETRY rand))"
    using sorted_retryTimeouts [OF assms(6)] by (rule sorted_wrt_take)
  moreover have "list_all (\<lambda>t. t \<le> 8000) (take k (retryTimeouts RETRY rand))"
    using retryTimeouts_bounded [of rand] by (auto simp: list_all_iff dest: in_set_takeD)
  moreover have "length (take k (retryTimeouts RETRY rand)) = k"
    using assms(1) by (simp add: length_retryTimeouts)
  ultimately show ?thesis by (simp add: run)
qed

theorem rate_limited_then_success_witness:
  "(2::nat) \<le> 10
   \<and> fst (tatumRpc (rateLimitedTransport 2) noJitter exampleCfg ''eth_call'' ([] :: string list) idle)
        = Inr (Some ''0x1'')
   \<and> length (sent (snd (tatumRpc (rateLimitedTransport 2) noJitter exampleCfg ''eth_call'' ([] :: string list) idle))) = 3
   \<and> length (slept (snd (tatumRpc (rateLimitedTransport 2) noJitter exampleCfg ''eth_call'' ([] :: string list) idle))) = 2
   \<and> sorted (slept (snd (tatumRpc (rateLimitedTransport 2) noJitter exampleCfg ''eth_call'' ([] :: string list) idle)))"
  using rate_limited_then_success [of 2 "rateLimitedTransport 2" 200 "Some ''0x1''" noJitter exampleCfg "''eth_call''" "[] :: string list"]
  by (simp add: rateLimitedTransport_def noJitter_def)

text \<open>
  C5. If the transport answers 403 to every request, \<^verbatim>\<open>tatumRpc\<close> raises the rate and
  service error after exactly 11 HTTP attempts, the attempt budget; it does not retry for
  ever. The model of the retry loop is a total function, so the call returns on every
  transport.
\<close>

theorem forbidden_forever_terminates:
  assumes "\<forall>i. \<exists>b. transport i = Response 403 b"
  shows "fst (tatumRpc transport rand cfg method params idle) = Inl (Error ''Rate/Service error 403'')
         \<and> length (sent (snd (tatumRpc transport rand cfg method params idle))) = 11"
proof -
  have "\<forall>i \<le> 10. handleResponse method (transport i) = Inl (Error ''Rate/Service error 403'')"
  proof (intro allI impI)
    fix i :: nat
    from assms obtain b where "transport i = Response 403 b" by blast
    then show "handleResponse method (transport i) = Inl (Error ''Rate/Service error 403'')"
      by (simp add: handleResponse_def natToString_status)
  qed
  from tatumRpc_all_fail [OF this, of rand cfg params] show ?thesis by simp
qed

theorem forbidden_forever_terminates_witness:
  "fst (tatumRpc forbiddenTransport noJitter exampleCfg ''eth_chainId'' ([] :: string list) idle)
     = Inl (Error ''Rate/Service error 403'')
   \<and> length (sent (snd (tatumRpc forbiddenTransport noJitter exampleCfg ''eth_chainId'' ([] :: string list) idle))) = 11"
  using forbidden_forever_terminates [of forbiddenTransport noJitter exampleCfg "''eth_chainId''" "[] :: string list"]
  by (simp add: forbiddenTransport_def)

text \<open>
  C9. For every method outside the eleven entries of \<^verbatim>\<open>ALLOW_METHODS\<close> the handler of
  \<^verbatim>\<open>rpc_call\<close> raises \<^verbatim>\<open>Method not allowed\<close> and leaves the world as it was: no request is
  sent. For every method of the list the handler does what \<^verbatim>\<open>tatumRpc\<close> does with the same
  method and parameters: the same final world, the same error or the result wrapped in a
  text item, and every request sent carries that method and those parameters.
\<close>

theorem rpc_call_allow_list:
  "(denied \<notin> set ALLOW_METHODS \<longrightarrow>
      rpc_call stringify transport rand cfg denied params w = (Inl (Error ''Method not allowed''), w))
   \<and> (allowed \<in> set ALLOW_METHODS \<longrightarrow>
        snd (rpc_call stringify transport rand cfg allowed params w)
          = snd (tatumRpc transport rand cfg allowed params w)
        \<and> fst (rpc_call stringify transport rand cfg allowed params w)
          = map_sum id (\<lambda>r. [\<lparr>item_type = ''text'', item_text = stringify r\<rparr>])
              (fst (tatumRpc transport rand cfg allowed params w))
        \<and> (\<exists>n. sent (snd (rpc_call stringify transport rand cfg allowed params w))
                 = sent w @ replicate (Suc n) (rpcRequest cfg allowed params))
        \<and> req_method (body (rpcRequest cfg allowed params)) = allowed
        \<and> req_params (body (rpcRequest cfg allowed params)) = params)
   \<and> length ALLOW_METHODS = 11 \<and> distinct ALLOW_METHODS"
proof -
  have denied: "rpc_call stringify transport rand cfg denied params w = (Inl (Error ''Method not allowed''), w)"
    if "denied \<notin> set ALLOW_METHODS"
    using that by (simp add: rpc_call_def)
  have run: "rpc_call stringify transport rand cfg allowed params w
       = (map_sum id (\<lambda>r. [\<lparr>item_type = ''text'', item_text = stringify r\<rparr>])
            (fst (tatumRpc transport rand cfg allowed params w)),
          snd (tatumRpc transport rand cfg allowed params w))"
    if "allowed \<in> set ALLOW_METHODS"
    using that by (simp add: rpc_call_def split: prod.splits sum.splits)
  have reqs: "\<exists>n. sent (snd (tatumRpc transport rand cfg allowed params w))
                 = sent w @ replicate (Suc n) (rpcRequest cfg allowed params)"
    by (rule tatumRpc_sent)
  have fields: "req_method (body (rpcRequest cfg allowed params)) = allowed"
    "req_params (body (rpcRequest cfg allowed params)) = params"
    by (simp_all add: rpcRequest_def)
  have list: "length ALLOW_METHODS = 11" "distinct ALLOW_METHODS"
    by (simp_all add: ALLOW_METHODS_def)
  show ?thesis
    using denied run reqs fields list by simp
qed

theorem rpc_call_allow_list_witness:
  "''eth_sendRawTransaction'' \<notin> set ALLOW_METHODS
   \<and> rpc_call showResult boomTransport noJitter exampleCfg ''eth_sendRawTransaction'' [''0x00''] idle
        = (Inl (Error ''Method not allowed''), idle)
   \<and> ''eth_call'' \<in> set ALLOW_METHODS
   \<and> snd (rpc_call showResult boomTransport noJitter exampleCfg ''eth_call'' [''0x00''] idle)
        = snd (tatumRpc boomTransport noJitter exampleCfg ''eth_call'' [''0x00''] idle)"
  using rpc_call_allow_list [of "''eth_sendRawTransaction''" showResult boomTransport noJitter exampleCfg "[''0x00'']" idle "''eth_call''"]
  by (simp add: ALLOW_METHODS_def)

end
